theory Spec2Isabelle
  imports Main
begin

section \<open>The RSS backend of Perceval (perceval/backends/core/rss.py)\<close>

text \<open>
  The module defines the class \<open>RSS\<close> (a \<open>Backend\<close>) with the generator methods
  \<open>fetch\<close> and \<open>fetch_from_cache\<close>, the class methods \<open>has_caching\<close> and
  \<open>has_resuming\<close>, the static methods \<open>metadata_id\<close>, \<open>metadata_updated_on\<close> and
  \<open>metadata_category\<close>, and the class \<open>RSSClient\<close> with \<open>get_entries\<close>.

  Python raises exceptions; here every raise is a value \<open>Inl e\<close> of a sum type.
  The language semantics is that of Python 3.7 and later: a \<open>StopIteration\<close> that escapes
  the body of a generator is replaced by \<open>RuntimeError\<close> (PEP 479).
\<close>

subsection \<open>Data\<close>

datatype error =
    CacheError
  | HTTPError nat
  | ConnectionError
  | KeyError string
  | InvalidDateError string
  | FeedParseError
  | StopIteration
  | RuntimeError

text \<open>An entry of a parsed feed is a dictionary from field names to text.\<close>

type_synonym entry = "string \<rightharpoonup> string"

text \<open>The response object of the HTTP library: \<open>req.status_code\<close> and \<open>req.text\<close>.\<close>

record response =
  status_code :: nat
  text_of :: string

text \<open>
  The libraries the module imports and calls, as parameters: \<open>requests.get\<close>,
  \<open>feedparser.parse(...)['entries']\<close>, \<open>str_to_datetime\<close> of \<open>perceval.utils\<close> and the
  method \<open>timestamp()\<close> of the date-time object it returns. The types \<open>'d\<close> of date-times
  and \<open>'t\<close> of timestamps are left open.

  \<open>feedparser.parse\<close> takes a URL, a file or a text. Given a text that is a URL it
  requests that address over HTTP and parses the answer; given any other text it parses
  the text itself and requests nothing. \<open>feedparser_downloads\<close> gives the addresses
  requested for a text (none for feed content) and \<open>feedparser_parse\<close> the entries
  obtained.
\<close>

record ('d, 't) externals =
  requests_get :: "string \<Rightarrow> error + response"
  feedparser_downloads :: "string \<Rightarrow> string list"
  feedparser_parse :: "string \<Rightarrow> error + entry list"
  str_to_datetime :: "string \<Rightarrow> error + 'd"
  timestamp :: "'d \<Rightarrow> 't"

text \<open>
  The calls a method makes to its collaborators, in order: the observable behaviour of
  one run. \<open>LogLooking\<close> and \<open>LogTotal\<close> are the two \<open>logger.info\<close> calls of \<open>fetch\<close>.
\<close>

datatype effect =
    LogLooking string
  | PurgeCacheQueue
  | HttpGet string
  | PushCacheQueue string
  | FlushCacheQueue
  | CacheRetrieve
  | LogTotal nat

datatype cache = Cache (records: "string list")

datatype rssclient = RSSClient (client_url: string)

text \<open>
  The state of one connector: the attributes \<open>url\<close> and \<open>client\<close> set by \<open>RSS.__init__\<close>,
  the attributes \<open>origin\<close>, \<open>tag\<close>, \<open>cache\<close> and \<open>cache_queue\<close> of the base class, and the
  trace of the calls made so far.
\<close>

record rss =
  url :: string
  client :: rssclient
  origin :: string
  tag :: string
  cache :: "cache option"
  cache_queue :: "string list"
  trace :: "effect list"

text \<open>The item handed to the caller: an entry with the metadata of the host framework.\<close>

record 't item =
  item_id :: string
  updated_on :: 't
  category :: string
  backend_name :: string
  backend_version :: string
  item_origin :: string
  item_tag :: string
  raw_data :: entry

subsection \<open>The base class\<close>

text \<open>
  Modelled from the spec: the constructor of the base class \<open>Backend\<close> (perceval/backend.py
  is not among the sources). The tag defaults to the origin when unset, the cache handle
  is optional, and the queue of staged cache writes starts empty.
\<close>

definition Backend_init :: "string \<Rightarrow> string option \<Rightarrow> cache option \<Rightarrow> rss" where
  "Backend_init origin' tag' cache' =
     \<lparr>url = [], client = RSSClient [], origin = origin',
      tag = (case tag' of None \<Rightarrow> origin' | Some t \<Rightarrow> t),
      cache = cache', cache_queue = [], trace = []\<rparr>"

text \<open>
  Modelled from the spec: the cache queue protocol of the base class \<open>Backend\<close> and the
  store of \<open>perceval.cache\<close> (neither is among the sources). \<open>purgeQueue\<close> discards the
  staged writes; \<open>pushQueue\<close> stages one raw record, only if a cache is configured;
  \<open>flushQueue\<close> commits the staged records to the cache; \<open>retrieve\<close> gives the stored
  records as a sequence whose first record is the most recent one, which is the single
  record that \<open>fetch_from_cache\<close> reads.
\<close>

definition purge_cache_queue :: "rss \<Rightarrow> rss" where
  "purge_cache_queue s = s\<lparr>cache_queue := [], trace := trace s @ [PurgeCacheQueue]\<rparr>"

definition push_cache_queue :: "string \<Rightarrow> rss \<Rightarrow> rss" where
  "push_cache_queue payload s =
     (case cache s of
        None \<Rightarrow> s\<lparr>trace := trace s @ [PushCacheQueue payload]\<rparr>
      | Some c \<Rightarrow> s\<lparr>cache_queue := cache_queue s @ [payload],
                     trace := trace s @ [PushCacheQueue payload]\<rparr>)"

definition flush_cache_queue :: "rss \<Rightarrow> rss" where
  "flush_cache_queue s =
     (case cache s of
        None \<Rightarrow> s\<lparr>trace := trace s @ [FlushCacheQueue]\<rparr>
      | Some c \<Rightarrow> s\<lparr>cache := Some (Cache (records c @ cache_queue s)),
                     cache_queue := [],
                     trace := trace s @ [FlushCacheQueue]\<rparr>)"

definition retrieve :: "cache \<Rightarrow> string list" where
  "retrieve c = rev (records c)"

text \<open>\<open>next(it)\<close> on an iterator over a sequence: its first element, or \<open>StopIteration\<close>.\<close>

definition next_record :: "string list \<Rightarrow> error + string" where
  "next_record xs = (case xs of [] \<Rightarrow> Inl StopIteration | x # _ \<Rightarrow> Inr x)"

definition log_info :: "effect \<Rightarrow> rss \<Rightarrow> rss" where
  "log_info m s = s\<lparr>trace := trace s @ [m]\<rparr>"

subsection \<open>The class RSS\<close>

definition version :: string where
  "version = ''0.1.0''"

definition RSS :: "string \<Rightarrow> string option \<Rightarrow> cache option \<Rightarrow> rss" where
  "RSS url' tag' cache' =
     (let origin' = url'
      in (Backend_init origin' tag' cache')\<lparr>url := url', client := RSSClient url'\<rparr>)"

definition has_caching :: "'cls \<Rightarrow> bool" where
  "has_caching cls = True"

definition has_resuming :: "'cls \<Rightarrow> bool" where
  "has_resuming cls = False"

definition metadata_id :: "entry \<Rightarrow> error + string" where
  "metadata_id item =
     (case item ''link'' of None \<Rightarrow> Inl (KeyError ''link'') | Some l \<Rightarrow> Inr l)"

definition metadata_updated_on :: "('d, 't) externals \<Rightarrow> entry \<Rightarrow> error + 't" where
  "metadata_updated_on X item =
     (case item ''published'' of
        None \<Rightarrow> Inl (KeyError ''published'')
      | Some p \<Rightarrow>
          (case str_to_datetime X p of
             Inl e \<Rightarrow> Inl e
           | Inr ts \<Rightarrow> Inr (timestamp X ts)))"

definition metadata_category :: "entry \<Rightarrow> string" where
  "metadata_category item = ''entry''"

text \<open>
  The call \<open>feedparser.parse(text)['entries']\<close>: the requests it makes, if any, and the
  entries.
\<close>

definition feedparser ::
  "('d, 't) externals \<Rightarrow> string \<Rightarrow> rss \<Rightarrow> (error + entry list) \<times> rss" where
  "feedparser X text s =
     (feedparser_parse X text,
      s\<lparr>trace := trace s @ map HttpGet (feedparser_downloads X text)\<rparr>)"

definition parse_feed ::
  "('d, 't) externals \<Rightarrow> string \<Rightarrow> rss \<Rightarrow> (error + entry list) \<times> rss" where
  "parse_feed X raw_entries s = feedparser X raw_entries s"

subsection \<open>The class RSSClient\<close>

text \<open>
  \<open>req.raise_for_status()\<close> of the HTTP library raises \<open>HTTPError\<close> for a client error
  (4xx) or a server error (5xx) and returns otherwise.
\<close>

definition raise_for_status :: "response \<Rightarrow> error + unit" where
  "raise_for_status req =
     (if 400 \<le> status_code req \<and> status_code req < 600
      then Inl (HTTPError (status_code req)) else Inr ())"

definition get_entries :: "('d, 't) externals \<Rightarrow> rss \<Rightarrow> (error + string) \<times> rss" where
  "get_entries X s =
     (let u = client_url (client s);
          s' = s\<lparr>trace := trace s @ [HttpGet u]\<rparr>
      in case requests_get X u of
           Inl e \<Rightarrow> (Inl e, s')
         | Inr req \<Rightarrow>
             (case raise_for_status req of
                Inl e \<Rightarrow> (Inl e, s')
              | Inr _ \<Rightarrow> (Inr (text_of req), s')))"

subsection \<open>Generators\<close>

text \<open>
  \<open>fetch\<close> and \<open>fetch_from_cache\<close> contain \<open>yield\<close>: calling them creates a generator
  object and runs nothing; each \<open>next\<close> resumes the body until it yields, returns or
  raises. A frame is the point where a body is suspended, with the local variables that
  are still live there: the rest of \<open>entries\<close> and, in \<open>fetch\<close>, \<open>nentries\<close>.
\<close>

datatype frame =
    Fetch_Start
  | Fetch_Yield "entry list" nat
  | Cache_Start
  | Cache_Yield "entry list"
  | Frame_Done

datatype 'a outcome = Yielded 'a | Returned | Raised error

text \<open>
  The loop \<open>for item in entries: yield item; nentries += 1\<close> of \<open>fetch\<close>, followed by
  the last \<open>logger.info\<close>.
\<close>

definition fetch_loop :: "entry list \<Rightarrow> nat \<Rightarrow> rss \<Rightarrow> entry outcome \<times> frame \<times> rss" where
  "fetch_loop entries nentries s =
     (case entries of
        [] \<Rightarrow> (Returned, Frame_Done, log_info (LogTotal nentries) s)
      | item # rest \<Rightarrow> (Yielded item, Fetch_Yield rest nentries, s))"

text \<open>The body of \<open>fetch\<close> from its first statement to the first \<open>yield\<close>.\<close>

definition fetch_body :: "('d, 't) externals \<Rightarrow> rss \<Rightarrow> entry outcome \<times> frame \<times> rss" where
  "fetch_body X s =
     (let s1 = log_info (LogLooking (url s)) s;
          s2 = purge_cache_queue s1;
          nentries = 0;
          (r, s3) = get_entries X s2
      in case r of
           Inl e \<Rightarrow> (Raised e, Frame_Done, s3)
         | Inr raw_entries \<Rightarrow>
             (let s4 = push_cache_queue raw_entries s3;
                  (p, s4') = parse_feed X raw_entries s4
              in case p of
                   Inl e \<Rightarrow> (Raised e, Frame_Done, s4')
                 | Inr entries \<Rightarrow>
                     (let s5 = flush_cache_queue s4'
                      in fetch_loop entries nentries s5)))"

text \<open>The loop \<open>for item in entries: yield item\<close> of \<open>fetch_from_cache\<close>.\<close>

definition cache_loop :: "entry list \<Rightarrow> rss \<Rightarrow> entry outcome \<times> frame \<times> rss" where
  "cache_loop entries s =
     (case entries of
        [] \<Rightarrow> (Returned, Frame_Done, s)
      | item # rest \<Rightarrow> (Yielded item, Cache_Yield rest, s))"

text \<open>The body of \<open>fetch_from_cache\<close> from its first statement to the first \<open>yield\<close>.\<close>

definition fetch_from_cache_body ::
  "('d, 't) externals \<Rightarrow> rss \<Rightarrow> entry outcome \<times> frame \<times> rss" where
  "fetch_from_cache_body X s =
     (case cache s of
        None \<Rightarrow> (Raised CacheError, Frame_Done, s)
      | Some c \<Rightarrow>
          (let s1 = log_info CacheRetrieve s
           in case next_record (retrieve c) of
                Inl e \<Rightarrow> (Raised e, Frame_Done, s1)
              | Inr cache_entries \<Rightarrow>
                  (let (p, s2) = feedparser X cache_entries s1
                   in case p of
                        Inl e \<Rightarrow> (Raised e, Frame_Done, s2)
                      | Inr entries \<Rightarrow> cache_loop entries s2)))"

fun resume :: "('d, 't) externals \<Rightarrow> frame \<Rightarrow> rss \<Rightarrow> entry outcome \<times> frame \<times> rss" where
  "resume X Fetch_Start s = fetch_body X s"
| "resume X (Fetch_Yield rest nentries) s = fetch_loop rest (nentries + 1) s"
| "resume X Cache_Start s = fetch_from_cache_body X s"
| "resume X (Cache_Yield rest) s = cache_loop rest s"
| "resume X Frame_Done s = (Returned, Frame_Done, s)"

text \<open>
  What leaves a generator: a \<open>StopIteration\<close> raised inside the body reaches the caller
  as \<open>RuntimeError\<close>; every other exception is passed on.
\<close>

definition pep479 :: "error \<Rightarrow> error" where
  "pep479 e = (if e = StopIteration then RuntimeError else e)"

text \<open>
  \<open>next(g)\<close> on the generator of one of the two bodies: the yielded entry, or
  \<open>StopIteration\<close> when the body returns, or the exception of the body.
\<close>

definition gen_next ::
  "('d, 't) externals \<Rightarrow> frame \<Rightarrow> rss \<Rightarrow> (error + entry) \<times> frame \<times> rss" where
  "gen_next X f s =
     (case resume X f s of
        (Yielded x, f', s') \<Rightarrow> (Inr x, f', s')
      | (Returned, f', s') \<Rightarrow> (Inl StopIteration, Frame_Done, s')
      | (Raised e, f', s') \<Rightarrow> (Inl (pep479 e), Frame_Done, s'))"

subsection \<open>The decorator \<open>metadata\<close>\<close>

text \<open>
  Modelled from the spec: the decorator \<open>metadata\<close> of perceval/backend.py (not among the
  sources) wraps each raw entry in a metadata-augmented record as it is produced. Every
  emitted item holds the id, the update time and the category computed by the three
  metadata functions of the connector, the name and version of the backend, the origin,
  the tag and the entry itself.
\<close>

definition metadata_item ::
  "('d, 't) externals \<Rightarrow> rss \<Rightarrow> entry \<Rightarrow> error + 't item" where
  "metadata_item X s data =
     (case metadata_id data of
        Inl e \<Rightarrow> Inl e
      | Inr i \<Rightarrow>
          (case metadata_updated_on X data of
             Inl e \<Rightarrow> Inl e
           | Inr u \<Rightarrow>
               Inr \<lparr>item_id = i, updated_on = u, category = metadata_category data,
                    backend_name = ''RSS'', backend_version = version,
                    item_origin = origin s, item_tag = tag s, raw_data = data\<rparr>))"

datatype func = Fetch | FetchFromCache

datatype gen = NotStarted func | Running frame | Finished

text \<open>Calling the decorated function \<open>func(self)\<close> creates its generator, not yet started.\<close>

definition call_func :: "func \<Rightarrow> frame" where
  "call_func m = (case m of Fetch \<Rightarrow> Fetch_Start | FetchFromCache \<Rightarrow> Cache_Start)"

text \<open>
  One round of the decorator's loop over the generator of the decorated function: take
  the next entry, wrap it, yield the item. The loop ends when the inner generator is
  exhausted; an exception of the inner generator or of a metadata function ends the
  decorator's own generator.
\<close>

definition metadata_loop ::
  "('d, 't) externals \<Rightarrow> frame \<Rightarrow> rss \<Rightarrow> (error + 't item) \<times> gen \<times> rss" where
  "metadata_loop X f s =
     (case gen_next X f s of
        (Inl e, f', s') \<Rightarrow>
          (if e = StopIteration then (Inl StopIteration, Finished, s')
           else (Inl (pep479 e), Finished, s'))
      | (Inr data, f', s') \<Rightarrow>
          (case metadata_item X s' data of
             Inl e \<Rightarrow> (Inl (pep479 e), Finished, s')
           | Inr item \<Rightarrow> (Inr item, Running f', s')))"

text \<open>\<open>next(g)\<close> on the generator that the decorated method returns.\<close>

definition metadata_next ::
  "('d, 't) externals \<Rightarrow> gen \<Rightarrow> rss \<Rightarrow> (error + 't item) \<times> gen \<times> rss" where
  "metadata_next X g s =
     (case g of
        NotStarted m \<Rightarrow> metadata_loop X (call_func m) s
      | Running f \<Rightarrow> metadata_loop X f s
      | Finished \<Rightarrow> (Inl StopIteration, Finished, s))"

text \<open>The decorated methods, as a caller sees them: the call returns a generator.\<close>

definition fetch :: "rss \<Rightarrow> gen \<times> rss" where
  "fetch s = (NotStarted Fetch, s)"

definition fetch_from_cache :: "rss \<Rightarrow> gen \<times> rss" where
  "fetch_from_cache s = (NotStarted FetchFromCache, s)"

subsection \<open>Consuming a generator\<close>

text \<open>
  The caller's loop \<open>for item in g\<close>: the items received, how the loop ended (normally,
  or with the exception that came out of \<open>next\<close>), and the state of the connector then.
\<close>

definition unstarted :: "gen \<Rightarrow> nat" where
  "unstarted g =
     (case g of
        NotStarted m \<Rightarrow> 1
      | Running f \<Rightarrow> (case f of Fetch_Start \<Rightarrow> 1 | Cache_Start \<Rightarrow> 1 | _ \<Rightarrow> 0)
      | Finished \<Rightarrow> 0)"

definition pending :: "gen \<Rightarrow> nat" where
  "pending g =
     (case g of
        Running f \<Rightarrow>
          (case f of
             Fetch_Yield rest n \<Rightarrow> Suc (length rest)
           | Cache_Yield rest \<Rightarrow> Suc (length rest)
           | _ \<Rightarrow> 0)
      | _ \<Rightarrow> 0)"

lemma metadata_loop_yields:
  assumes "metadata_loop X f s = (Inr item, g', s')"
  shows "unstarted g' = 0 \<and> (unstarted (Running f) = 0 \<longrightarrow> pending g' < pending (Running f))"
  using assms
  by (cases f)
     (auto simp: metadata_loop_def gen_next_def fetch_loop_def cache_loop_def
         fetch_body_def fetch_from_cache_body_def unstarted_def pending_def Let_def
       split: prod.splits sum.splits outcome.splits list.splits if_splits option.splits)

lemma metadata_next_yields:
  assumes "metadata_next X g s = (Inr item, g', s')"
  shows "unstarted g' < unstarted g \<or> (unstarted g' = unstarted g \<and> pending g' < pending g)"
proof (cases g)
  case (NotStarted m)
  with assms have "metadata_loop X (call_func m) s = (Inr item, g', s')"
    by (simp add: metadata_next_def)
  from metadata_loop_yields [OF this] NotStarted show ?thesis
    by (simp add: unstarted_def)
next
  case (Running f)
  with assms have "metadata_loop X f s = (Inr item, g', s')"
    by (simp add: metadata_next_def)
  from metadata_loop_yields [OF this] Running show ?thesis
    by (cases "unstarted (Running f) = 0") (auto simp: unstarted_def split: frame.splits)
next
  case Finished
  with assms show ?thesis by (simp add: metadata_next_def)
qed

function drain ::
  "('d, 't) externals \<Rightarrow> gen \<Rightarrow> rss \<Rightarrow> 't item list \<times> (error + unit) \<times> rss" where
  "drain X g s =
     (case metadata_next X g s of
        (Inl e, g', s') \<Rightarrow> ([], (if e = StopIteration then Inr () else Inl e), s')
      | (Inr item, g', s') \<Rightarrow>
          (case drain X g' s' of (items, r, s'') \<Rightarrow> (item # items, r, s'')))"
  by pat_completeness auto
termination
  apply (relation "measures [\<lambda>(X, g, s). unstarted g, \<lambda>(X, g, s). pending g]")
   apply simp
  apply (auto dest!: metadata_next_yields [OF sym])
  done

declare drain.simps [simp del]


text \<open>A call of a decorated method followed by the caller's loop over the result.\<close>

definition consume ::
  "('d, 't) externals \<Rightarrow> (rss \<Rightarrow> gen \<times> rss) \<Rightarrow> rss \<Rightarrow> 't item list \<times> (error + unit) \<times> rss" where
  "consume X m s = (case m s of (g, s') \<Rightarrow> drain X g s')"

subsection \<open>Notions used in the statements\<close>

text \<open>
  The metadata functions applied down a list of entries, up to the first entry on which
  one of them raises: the items made so far and the exception, if any.
\<close>

fun wrap_all ::
  "('d, 't) externals \<Rightarrow> rss \<Rightarrow> entry list \<Rightarrow> 't item list \<times> error option" where
  "wrap_all X s [] = ([], None)"
| "wrap_all X s (e # es) =
     (case metadata_item X s e of
        Inl err \<Rightarrow> ([], Some err)
      | Inr it \<Rightarrow> (case wrap_all X s es of (its, r) \<Rightarrow> (it # its, r)))"

text \<open>
  The state of the connector when the body of \<open>fetch\<close> enters its loop: the first log
  line, the purge, the HTTP request, the push of the body \<open>raw\<close>, the parse and the flush
  are done.
\<close>

definition fetched :: "('d, 't) externals \<Rightarrow> rss \<Rightarrow> string \<Rightarrow> rss" where
  "fetched X s raw =
     flush_cache_queue
       (snd (feedparser X raw
          (push_cache_queue raw
             (log_info (HttpGet (client_url (client s)))
                (purge_cache_queue (log_info (LogLooking (url s)) s))))))"

text \<open>
  The state of the connector when the body of \<open>fetch_from_cache\<close> enters its loop: the
  retrieval and the parse of the record \<open>raw\<close> are done.
\<close>

definition replayed :: "('d, 't) externals \<Rightarrow> rss \<Rightarrow> string \<Rightarrow> rss" where
  "replayed X s raw = snd (feedparser X raw (log_info CacheRetrieve s))"

text \<open>
  A well-formed entry has a non-empty link and a published date that \<open>str_to_datetime\<close>
  accepts.
\<close>

definition well_formed :: "('d, 't) externals \<Rightarrow> entry \<Rightarrow> bool" where
  "well_formed X e =
     (case e ''link'' of
        None \<Rightarrow> False
      | Some l \<Rightarrow>
          l \<noteq> [] \<and>
          (case e ''published'' of
             None \<Rightarrow> False
           | Some p \<Rightarrow> (case str_to_datetime X p of Inl err \<Rightarrow> False | Inr d \<Rightarrow> True)))"

subsection \<open>Example feeds\<close>

text \<open>
  Concrete collaborators for closed instances of the statements below. The feed at
  \<open>http://x/feed\<close> has two well-formed entries, the one at \<open>http://x/broken\<close> has an
  entry without \<open>published\<close> between two well-formed ones, \<open>http://x/gone\<close> answers 404,
  and \<open>old\<close> is the body of an earlier version of a feed. The body served at
  \<open>http://x/pointer\<close> is the text \<open>http://x/feed\<close>, a URL: the parser requests that
  address and gets the two entries of the feed there. Date-times and timestamps are
  seconds since the epoch.
\<close>

definition ex_entry1 :: entry where
  "ex_entry1 = [''link'' \<mapsto> ''http://x/1'', ''published'' \<mapsto> ''Mon, 01 Jan 2024 00:00:00 GMT'']"

definition ex_entry2 :: entry where
  "ex_entry2 = [''link'' \<mapsto> ''http://x/2'', ''published'' \<mapsto> ''Tue, 02 Jan 2024 00:00:00 GMT'']"

definition ex_entry_nodate :: entry where
  "ex_entry_nodate = [''link'' \<mapsto> ''http://x/3'']"

definition ex_entry_old :: entry where
  "ex_entry_old = [''link'' \<mapsto> ''http://x/0'', ''published'' \<mapsto> ''Sun, 31 Dec 2023 00:00:00 GMT'']"

definition ex_requests_get :: "string \<Rightarrow> error + response" where
  "ex_requests_get u =
     (if u = ''http://x/feed'' then Inr \<lparr>status_code = 200, text_of = ''two''\<rparr>
      else if u = ''http://x/broken'' then Inr \<lparr>status_code = 200, text_of = ''broken''\<rparr>
      else if u = ''http://x/gone'' then Inr \<lparr>status_code = 404, text_of = ''gone''\<rparr>
      else if u = ''http://x/pointer''
        then Inr \<lparr>status_code = 200, text_of = ''http://x/feed''\<rparr>
      else Inl ConnectionError)"

definition ex_downloads :: "string \<Rightarrow> string list" where
  "ex_downloads raw = (if raw = ''http://x/feed'' then [''http://x/feed''] else [])"

definition ex_parse :: "string \<Rightarrow> error + entry list" where
  "ex_parse raw =
     (if raw = ''two'' then Inr [ex_entry1, ex_entry2]
      else if raw = ''broken'' then Inr [ex_entry1, ex_entry_nodate, ex_entry2]
      else if raw = ''old'' then Inr [ex_entry_old]
      else if raw = ''http://x/feed'' then Inr [ex_entry1, ex_entry2]
      else Inr [])"

definition ex_str_to_datetime :: "string \<Rightarrow> error + int" where
  "ex_str_to_datetime p =
     (if p = ''Mon, 01 Jan 2024 00:00:00 GMT'' then Inr 1704067200
      else if p = ''Tue, 02 Jan 2024 00:00:00 GMT'' then Inr 1704153600
      else if p = ''Sun, 31 Dec 2023 00:00:00 GMT'' then Inr 1703980800
      else Inl (InvalidDateError p))"

definition ex_externals :: "(int, int) externals" where
  "ex_externals =
     \<lparr>requests_get = ex_requests_get, feedparser_downloads = ex_downloads,
      feedparser_parse = ex_parse,
      str_to_datetime = ex_str_to_datetime, timestamp = (\<lambda>d. d)\<rparr>"

text \<open>The items of the two entries of the feed at \<open>http://x/feed\<close>.\<close>

definition ex_item1 :: "int item" where
  "ex_item1 =
     \<lparr>item_id = ''http://x/1'', updated_on = 1704067200, category = ''entry'',
      backend_name = ''RSS'', backend_version = ''0.1.0'', item_origin = ''http://x/feed'',
      item_tag = ''http://x/feed'', raw_data = ex_entry1\<rparr>"


subsection \<open>What a run of a generator gives\<close>

lemma metadata_item_trace [simp]:
  "metadata_item X (s\<lparr>trace := t\<rparr>) data = metadata_item X s data"
  by (simp add: metadata_item_def split: sum.splits)

lemma metadata_item_fetched [simp]:
  "metadata_item X (fetched Y s raw) data = metadata_item X s data"
  by (simp add: metadata_item_def fetched_def feedparser_def flush_cache_queue_def
      push_cache_queue_def purge_cache_queue_def log_info_def
      split: sum.splits option.splits)

lemma metadata_item_replayed [simp]:
  "metadata_item X (replayed Y s raw) data = metadata_item X s data"
  by (simp add: metadata_item_def replayed_def feedparser_def log_info_def
      split: sum.splits)

lemma wrap_all_fetched [simp]: "wrap_all X (fetched Y s raw) es = wrap_all X s es"
  by (induction es) (simp_all split: sum.splits)

lemma wrap_all_replayed [simp]: "wrap_all X (replayed Y s raw) es = wrap_all X s es"
  by (induction es) (simp_all split: sum.splits)

lemma wrap_all_trace [simp]: "wrap_all X (s\<lparr>trace := t\<rparr>) es = wrap_all X s es"
  by (induction es) (simp_all split: sum.splits)

lemma drain_fetch_yield:
  "drain X (Running (Fetch_Yield rest n)) s =
     (case wrap_all X s rest of
        (its, None) \<Rightarrow> (its, Inr (), log_info (LogTotal (Suc n + length its)) s)
      | (its, Some err) \<Rightarrow> (its, Inl (pep479 err), s))"
proof (induction rest arbitrary: n)
  case Nil
  show ?case
    by (subst drain.simps)
      (simp add: metadata_next_def metadata_loop_def gen_next_def fetch_loop_def)
next
  case (Cons e es)
  show ?case
    by (subst drain.simps)
      (simp add: metadata_next_def metadata_loop_def gen_next_def fetch_loop_def Cons.IH
        pep479_def split: sum.splits prod.splits option.splits)
qed


lemma fetch_body_ok:
  assumes "requests_get X (client_url (client s)) = Inr req"
    and "\<not> (400 \<le> status_code req \<and> status_code req < 600)"
    and "feedparser_parse X (text_of req) = Inr entries"
  shows "fetch_body X s = fetch_loop entries 0 (fetched X s (text_of req))"
  using assms
  by (auto simp: fetch_body_def get_entries_def raise_for_status_def parse_feed_def
      feedparser_def fetched_def log_info_def purge_cache_queue_def Let_def)

lemma drain_fetch_ok:
  assumes "requests_get X (client_url (client s)) = Inr req"
    and "\<not> (400 \<le> status_code req \<and> status_code req < 600)"
    and "feedparser_parse X (text_of req) = Inr entries"
  shows "drain X (NotStarted Fetch) s =
     (case wrap_all X s entries of
        (its, None) \<Rightarrow>
          (its, Inr (), log_info (LogTotal (length its)) (fetched X s (text_of req)))
      | (its, Some err) \<Rightarrow> (its, Inl (pep479 err), fetched X s (text_of req)))"
proof (cases entries)
  case Nil
  show ?thesis
    by (subst drain.simps)
      (simp add: metadata_next_def metadata_loop_def gen_next_def call_func_def
        fetch_body_ok [OF assms] fetch_loop_def Nil)
next
  case (Cons e es)
  show ?thesis
    by (subst drain.simps)
      (simp add: metadata_next_def metadata_loop_def gen_next_def call_func_def
        fetch_body_ok [OF assms] fetch_loop_def Cons drain_fetch_yield pep479_def
        split: sum.splits prod.splits option.splits)
qed



text \<open>A body that raises before its first \<open>yield\<close>: the first \<open>next\<close> raises.\<close>

lemma first_next_raises:
  assumes "resume X (call_func m) s = (Raised e, f, s')"
  shows "metadata_next X (NotStarted m) s = (Inl (pep479 e), Finished, s')"
  using assms
  by (simp add: metadata_next_def metadata_loop_def gen_next_def pep479_def)

lemma drain_raises:
  assumes "resume X (call_func m) s = (Raised e, f, s')"
  shows "drain X (NotStarted m) s = ([], Inl (pep479 e), s')"
  by (subst drain.simps) (simp add: first_next_raises [OF assms] pep479_def)

subsection \<open>The metadata functions down a list of entries\<close>

lemma wrap_all_split:
  "wrap_all X s es = (its, Some err) \<Longrightarrow>
     \<exists>pre bad post. es = pre @ bad # post
        \<and> list_all (\<lambda>e. \<not> isl (metadata_item X s e)) pre
        \<and> metadata_item X s bad = Inl err
        \<and> its = map (\<lambda>e. projr (metadata_item X s e)) pre"
proof (induction es arbitrary: its)
  case Nil
  then show ?case by simp
next
  case (Cons e es)
  show ?case
  proof (cases "metadata_item X s e")
    case (Inl a)
    with Cons.prems have "its = []" "a = err" by simp_all
    with Inl have "e # es = [] @ e # es
        \<and> list_all (\<lambda>e. \<not> isl (metadata_item X s e)) []
        \<and> metadata_item X s e = Inl err
        \<and> its = map (\<lambda>e. projr (metadata_item X s e)) []" by simp
    then show ?thesis by blast
  next
    case (Inr it)
    with Cons.prems obtain its' where
      its: "its = it # its'" and w: "wrap_all X s es = (its', Some err)"
      by (auto split: prod.splits)
    from Cons.IH [OF w] obtain pre bad post where
      "es = pre @ bad # post" "list_all (\<lambda>e. \<not> isl (metadata_item X s e)) pre"
      "metadata_item X s bad = Inl err" "its' = map (\<lambda>e. projr (metadata_item X s e)) pre"
      by blast
    with Inr its have "e # es = (e # pre) @ bad # post
        \<and> list_all (\<lambda>e. \<not> isl (metadata_item X s e)) (e # pre)
        \<and> metadata_item X s bad = Inl err
        \<and> its = map (\<lambda>e. projr (metadata_item X s e)) (e # pre)" by simp
    then show ?thesis by blast
  qed
qed

lemma wrap_all_fails:
  "e \<in> set es \<Longrightarrow> isl (metadata_item X s e) \<Longrightarrow> \<exists>its err. wrap_all X s es = (its, Some err)"
  by (induction es) (auto split: sum.splits prod.splits simp: isl_def)

lemma no_published_fails: "e ''published'' = None \<Longrightarrow> isl (metadata_item X s e)"
  by (simp add: metadata_item_def metadata_updated_on_def split: sum.splits)

lemma wrap_all_ok:
  "list_all (well_formed X) es \<Longrightarrow>
     \<exists>its. wrap_all X s es = (its, None) \<and> length its = length es \<and> map raw_data its = es
       \<and> map (\<lambda>i. Some (item_id i)) its = map (\<lambda>e. e ''link'') es
       \<and> (\<forall>i \<in> set its. item_id i \<noteq> [])"
proof (induction es)
  case Nil
  then show ?case by simp
next
  case (Cons e es)
  then obtain its where "wrap_all X s es = (its, None)" "length its = length es"
    "map raw_data its = es" "map (\<lambda>i. Some (item_id i)) its = map (\<lambda>e. e ''link'') es"
    "\<forall>i \<in> set its. item_id i \<noteq> []"
    by auto
  moreover from Cons.prems have "well_formed X e" by simp
  then obtain it where "metadata_item X s e = Inr it" "raw_data it = e"
    "Some (item_id it) = e ''link''" "item_id it \<noteq> []"
    by (auto simp: well_formed_def metadata_item_def metadata_id_def metadata_updated_on_def
        split: option.splits sum.splits)
  ultimately show ?case by simp
qed

lemma RSS_eq:
  "RSS u t c =
     \<lparr>url = u, client = RSSClient u, origin = u,
      tag = (case t of None \<Rightarrow> u | Some t' \<Rightarrow> t'),
      cache = c, cache_queue = [], trace = []\<rparr>"
  by (simp add: RSS_def Backend_init_def Let_def)

subsection \<open>The first \<open>next\<close>\<close>

lemma metadata_loop_state: "snd (snd (metadata_loop X f s)) = snd (snd (resume X f s))"
  by (simp add: metadata_loop_def gen_next_def
      split: prod.splits outcome.splits sum.splits)

lemma fetch_body_trace:
  "\<exists>t. trace (snd (snd (fetch_body X s))) =
         trace s @ LogLooking (url s) # PurgeCacheQueue # HttpGet (client_url (client s)) # t"
  by (simp add: fetch_body_def get_entries_def fetch_loop_def log_info_def parse_feed_def
      feedparser_def purge_cache_queue_def push_cache_queue_def flush_cache_queue_def
      Let_def split: sum.splits list.splits option.splits)

lemma fetch_from_cache_body_trace:
  "cache s \<noteq> None \<Longrightarrow> \<exists>t. trace (snd (snd (fetch_from_cache_body X s))) = trace s @ CacheRetrieve # t"
  by (auto simp: fetch_from_cache_body_def cache_loop_def log_info_def feedparser_def
      Let_def split: sum.splits list.splits option.splits)

subsection \<open>The example feeds, evaluated\<close>

lemma ex_get_feed:
  "requests_get ex_externals (client_url (client (RSS ''http://x/feed'' None c)))
     = Inr \<lparr>status_code = 200, text_of = ''two''\<rparr>"
  by (simp add: RSS_eq ex_externals_def ex_requests_get_def)

lemma ex_get_broken:
  "requests_get ex_externals (client_url (client (RSS ''http://x/broken'' None c)))
     = Inr \<lparr>status_code = 200, text_of = ''broken''\<rparr>"
  by (simp add: RSS_eq ex_externals_def ex_requests_get_def)

lemma ex_get_gone:
  "requests_get ex_externals (client_url (client (RSS ''http://x/gone'' None c)))
     = Inr \<lparr>status_code = 404, text_of = ''gone''\<rparr>"
  by (simp add: RSS_eq ex_externals_def ex_requests_get_def)

lemma ex_status_ok: "\<not> (400 \<le> status_code \<lparr>status_code = 200, text_of = b\<rparr>
    \<and> status_code \<lparr>status_code = 200, text_of = b\<rparr> < 600)"
  by simp

lemma ex_parse_two:
  "feedparser_parse ex_externals (text_of \<lparr>status_code = 200, text_of = ''two''\<rparr>)
     = Inr [ex_entry1, ex_entry2]"
  by (simp add: ex_externals_def ex_parse_def)

lemma ex_parse_broken:
  "feedparser_parse ex_externals (text_of \<lparr>status_code = 200, text_of = ''broken''\<rparr>)
     = Inr [ex_entry1, ex_entry_nodate, ex_entry2]"
  by (simp add: ex_externals_def ex_parse_def)

lemma ex_wrap1:
  "metadata_item ex_externals s ex_entry1 =
     Inr \<lparr>item_id = ''http://x/1'', updated_on = 1704067200, category = ''entry'',
      backend_name = ''RSS'', backend_version = ''0.1.0'', item_origin = origin s,
      item_tag = tag s, raw_data = ex_entry1\<rparr>"
  by (simp add: metadata_item_def metadata_id_def metadata_updated_on_def
      metadata_category_def version_def ex_externals_def ex_str_to_datetime_def ex_entry1_def)


lemma ex_wrap_nodate:
  "metadata_item ex_externals s ex_entry_nodate = Inl (KeyError ''published'')"
  by (simp add: metadata_item_def metadata_id_def metadata_updated_on_def ex_entry_nodate_def)


lemma ex_consume_broken:
  "consume ex_externals fetch (RSS ''http://x/broken'' None c) =
     ([ex_item1\<lparr>item_origin := ''http://x/broken'', item_tag := ''http://x/broken''\<rparr>],
      Inl (KeyError ''published''), fetched ex_externals (RSS ''http://x/broken'' None c) ''broken'')"
  using drain_fetch_ok [OF ex_get_broken ex_status_ok ex_parse_broken, of c]
  by (simp add: consume_def fetch_def ex_wrap1 ex_wrap_nodate ex_item1_def RSS_eq pep479_def)




section \<open>The properties\<close>

text \<open>
  C7: for every entry, \<open>metadata_category\<close> returns the constant string \<open>entry\<close>,
  whatever the entry contains.
\<close>

theorem metadata_category_constant: "metadata_category e = ''entry''"
  by (simp add: metadata_category_def)

text \<open>
  C8: the capability queries are constants: \<open>has_caching\<close> is true and \<open>has_resuming\<close>
  is false, whatever they are called on.
\<close>

theorem capabilities_constant: "has_caching cls = True \<and> has_resuming cls' = False"
  by (simp add: has_caching_def has_resuming_def)

text \<open>
  C6: on a connector without a cache, \<open>fetch_from_cache\<close> fails with \<open>CacheError\<close>: the
  caller receives no item, and the connector is left as it was.
\<close>

theorem fetch_from_cache_without_cache:
  assumes "cache s = None"
  shows "consume X fetch_from_cache s = ([], Inl CacheError, s)"
proof -
  from assms have "resume X (call_func FetchFromCache) s = (Raised CacheError, Frame_Done, s)"
    by (simp add: call_func_def fetch_from_cache_body_def)
  from drain_raises [OF this] show ?thesis
    by (simp add: consume_def fetch_from_cache_def pep479_def)
qed

theorem fetch_from_cache_without_cache_witness:
  "cache (RSS ''http://x/feed'' None None) = None \<and>
   consume ex_externals fetch_from_cache (RSS ''http://x/feed'' None None)
     = ([], Inl CacheError, RSS ''http://x/feed'' None None)"
proof -
  have h: "cache (RSS ''http://x/feed'' None None) = None"
    by (simp add: RSS_eq)
  from h fetch_from_cache_without_cache [OF h, of ex_externals] show ?thesis by simp
qed

text \<open>
  C10: on a connector whose cache is configured but holds no record,
  \<open>fetch_from_cache\<close> does not give an empty sequence: taking the first record of the
  empty retrieval raises \<open>StopIteration\<close> inside the generator, which reaches the caller
  as \<open>RuntimeError\<close> before any item is yielded.
\<close>

theorem fetch_from_empty_cache:
  assumes "cache s = Some c" and "retrieve c = []"
  shows "consume X fetch_from_cache s = ([], Inl RuntimeError, log_info CacheRetrieve s)"
proof -
  from assms have "resume X (call_func FetchFromCache) s
      = (Raised StopIteration, Frame_Done, log_info CacheRetrieve s)"
    by (simp add: call_func_def fetch_from_cache_body_def next_record_def)
  from drain_raises [OF this] show ?thesis
    by (simp add: consume_def fetch_from_cache_def pep479_def)
qed

theorem fetch_from_empty_cache_witness:
  "cache (RSS ''http://x/feed'' None (Some (Cache []))) = Some (Cache [])
   \<and> retrieve (Cache []) = []
   \<and> consume ex_externals fetch_from_cache (RSS ''http://x/feed'' None (Some (Cache [])))
     = ([], Inl RuntimeError,
        \<lparr>url = ''http://x/feed'', client = RSSClient ''http://x/feed'',
         origin = ''http://x/feed'', tag = ''http://x/feed'', cache = Some (Cache []),
         cache_queue = [], trace = [CacheRetrieve]\<rparr>)"
proof -
  have h1: "cache (RSS ''http://x/feed'' None (Some (Cache []))) = Some (Cache [])"
    by (simp add: RSS_eq)
  have h2: "retrieve (Cache []) = []"
    by (simp add: retrieve_def)
  from h1 h2 fetch_from_empty_cache [OF h1 h2, of ex_externals] show ?thesis
    by (simp add: RSS_eq log_info_def)
qed

text \<open>
  C4: when the response has a status code of a client or server error (400 to 599, for
  example 404), the first \<open>next\<close> on \<open>fetch\<close> raises \<open>HTTPError\<close> and the caller
  receives no item. The calls made are the first log line, the purge of the queue and
  the request; nothing is pushed to the queue and the queue is not flushed, so the queue
  is empty and the cache is as before. Every call of \<open>fetch\<close>, the next one too, purges the
  queue before its request.
\<close>

theorem fetch_http_status_error:
  assumes "requests_get X (client_url (client s)) = Inr req"
    and "400 \<le> status_code req" and "status_code req < 600"
  shows "metadata_next X (fst (fetch s)) (snd (fetch s)) =
           (Inl (HTTPError (status_code req)), Finished,
            s\<lparr>cache_queue := [],
              trace := trace s @ [LogLooking (url s), PurgeCacheQueue,
                                  HttpGet (client_url (client s))]\<rparr>)
       \<and> consume X fetch s =
           ([], Inl (HTTPError (status_code req)),
            s\<lparr>cache_queue := [],
              trace := trace s @ [LogLooking (url s), PurgeCacheQueue,
                                  HttpGet (client_url (client s))]\<rparr>)
       \<and> (\<exists>t. trace (snd (snd (metadata_next X' (fst (fetch s')) (snd (fetch s'))))) =
            trace s' @ LogLooking (url s') # PurgeCacheQueue
              # HttpGet (client_url (client s')) # t)"
proof -
  from assms have "resume X (call_func Fetch) s =
      (Raised (HTTPError (status_code req)), Frame_Done,
       s\<lparr>cache_queue := [],
         trace := trace s @ [LogLooking (url s), PurgeCacheQueue,
                             HttpGet (client_url (client s))]\<rparr>)"
    by (simp add: call_func_def fetch_body_def get_entries_def raise_for_status_def
        log_info_def purge_cache_queue_def Let_def)
  from first_next_raises [OF this] drain_raises [OF this] fetch_body_trace [of X' s']
  show ?thesis
    by (simp add: consume_def fetch_def pep479_def metadata_next_def metadata_loop_state call_func_def)
qed

theorem fetch_http_status_error_witness:
  "requests_get ex_externals (client_url (client (RSS ''http://x/gone'' None (Some (Cache [])))))
       = Inr \<lparr>status_code = 404, text_of = ''gone''\<rparr>
   \<and> consume ex_externals fetch (RSS ''http://x/gone'' None (Some (Cache []))) =
       ([], Inl (HTTPError 404),
        \<lparr>url = ''http://x/gone'', client = RSSClient ''http://x/gone'',
         origin = ''http://x/gone'', tag = ''http://x/gone'', cache = Some (Cache []),
         cache_queue = [],
         trace = [LogLooking ''http://x/gone'', PurgeCacheQueue, HttpGet ''http://x/gone'']\<rparr>)"
proof -
  have h2: "400 \<le> status_code \<lparr>status_code = 404, text_of = ''gone''\<rparr>"
    and h3: "status_code \<lparr>status_code = 404, text_of = ''gone''\<rparr> < 600"
    by simp_all
  from fetch_http_status_error
      [OF ex_get_gone [of "Some (Cache [])"] h2 h3, THEN conjunct2, THEN conjunct1]
    ex_get_gone [of "Some (Cache [])"]
  show ?thesis by (simp add: RSS_eq)
qed

text \<open>
  C9: calling \<open>fetch\<close> or \<open>fetch_from_cache\<close> returns a generator that has not started
  and leaves the connector as it was: no log line, no purge, no request, no push, no
  flush, and no check of the cache. The effects come with the first \<open>next\<close>: for \<open>fetch\<close>
  the log line, the purge and the request; for \<open>fetch_from_cache\<close> the \<open>CacheError\<close>
  when there is no cache, and the retrieval otherwise.
\<close>

theorem generators_are_lazy:
  "fetch s = (NotStarted Fetch, s)
   \<and> fetch_from_cache s = (NotStarted FetchFromCache, s)
   \<and> (\<exists>t. trace (snd (snd (metadata_next X (fst (fetch s)) (snd (fetch s))))) =
          trace s @ LogLooking (url s) # PurgeCacheQueue # HttpGet (client_url (client s)) # t)
   \<and> (cache s = None \<longrightarrow>
        metadata_next X (fst (fetch_from_cache s)) (snd (fetch_from_cache s))
          = (Inl CacheError, Finished, s))
   \<and> (cache s \<noteq> None \<longrightarrow>
        (\<exists>t. trace (snd (snd (metadata_next X (fst (fetch_from_cache s))
                                  (snd (fetch_from_cache s))))) =
          trace s @ CacheRetrieve # t))"
proof (intro conjI impI)
  show "fetch s = (NotStarted Fetch, s)" by (simp add: fetch_def)
  show "fetch_from_cache s = (NotStarted FetchFromCache, s)" by (simp add: fetch_from_cache_def)
  show "\<exists>t. trace (snd (snd (metadata_next X (fst (fetch s)) (snd (fetch s))))) =
          trace s @ LogLooking (url s) # PurgeCacheQueue # HttpGet (client_url (client s)) # t"
    using fetch_body_trace [of X s]
    by (simp add: fetch_def metadata_next_def metadata_loop_state call_func_def)
next
  assume "cache s = None"
  then have "resume X (call_func FetchFromCache) s = (Raised CacheError, Frame_Done, s)"
    by (simp add: call_func_def fetch_from_cache_body_def)
  from first_next_raises [OF this]
  show "metadata_next X (fst (fetch_from_cache s)) (snd (fetch_from_cache s))
          = (Inl CacheError, Finished, s)"
    by (simp add: fetch_from_cache_def pep479_def)
next
  assume "cache s \<noteq> None"
  from fetch_from_cache_body_trace [OF this, of X]
  show "\<exists>t. trace (snd (snd (metadata_next X (fst (fetch_from_cache s))
                                  (snd (fetch_from_cache s))))) =
          trace s @ CacheRetrieve # t"
    by (simp add: fetch_from_cache_def metadata_next_def metadata_loop_state call_func_def)
qed

theorem generators_are_lazy_witness:
  "fetch (RSS ''http://x/feed'' None None) = (NotStarted Fetch, RSS ''http://x/feed'' None None)
   \<and> cache (RSS ''http://x/feed'' None None) = None
   \<and> metadata_next ex_externals (fst (fetch_from_cache (RSS ''http://x/feed'' None None)))
        (snd (fetch_from_cache (RSS ''http://x/feed'' None None)))
       = (Inl CacheError, Finished, RSS ''http://x/feed'' None None)
   \<and> cache (RSS ''http://x/feed'' None (Some (Cache [''old'']))) = Some (Cache [''old''])
   \<and> (\<exists>t. trace (snd (snd (metadata_next ex_externals
         (fst (fetch_from_cache (RSS ''http://x/feed'' None (Some (Cache [''old''])))))
         (snd (fetch_from_cache (RSS ''http://x/feed'' None (Some (Cache [''old'']))))))))
       = CacheRetrieve # t)"
proof -
  have h: "cache (RSS ''http://x/feed'' None None) = None"
    by (simp add: RSS_eq)
  have h': "cache (RSS ''http://x/feed'' None (Some (Cache [''old'']))) = Some (Cache [''old''])"
    by (simp add: RSS_eq)
  have t: "trace (RSS ''http://x/feed'' None (Some (Cache [''old'']))) = []"
    by (simp add: RSS_eq)
  have "\<exists>u. trace (snd (snd (metadata_next ex_externals
         (fst (fetch_from_cache (RSS ''http://x/feed'' None (Some (Cache [''old''])))))
         (snd (fetch_from_cache (RSS ''http://x/feed'' None (Some (Cache [''old'']))))))))
       = trace (RSS ''http://x/feed'' None (Some (Cache [''old'']))) @ CacheRetrieve # u"
    using generators_are_lazy [of "RSS ''http://x/feed'' None (Some (Cache [''old'']))" ex_externals] h'
    by blast
  then have "\<exists>u. trace (snd (snd (metadata_next ex_externals
         (fst (fetch_from_cache (RSS ''http://x/feed'' None (Some (Cache [''old''])))))
         (snd (fetch_from_cache (RSS ''http://x/feed'' None (Some (Cache [''old'']))))))))
       = CacheRetrieve # u"
    by (simp add: t)
  moreover from generators_are_lazy [of "RSS ''http://x/feed'' None None" ex_externals] h
  have "fetch (RSS ''http://x/feed'' None None) = (NotStarted Fetch, RSS ''http://x/feed'' None None)
    \<and> metadata_next ex_externals (fst (fetch_from_cache (RSS ''http://x/feed'' None None)))
        (snd (fetch_from_cache (RSS ''http://x/feed'' None None)))
       = (Inl CacheError, Finished, RSS ''http://x/feed'' None None)"
    by blast
  ultimately show ?thesis using h h' by blast
qed

text \<open>
  C3: when the request succeeds and the parser gives \<open>N\<close> well-formed entries,
  \<open>fetch\<close> ends normally after yielding exactly \<open>N\<close> items, one per entry and in feed
  order; the id of each item is the link of its entry, which is not empty.
\<close>

theorem fetch_yields_every_entry:
  assumes "requests_get X (client_url (client s)) = Inr req"
    and "\<not> (400 \<le> status_code req \<and> status_code req < 600)"
    and "feedparser_parse X (text_of req) = Inr entries"
    and "list_all (well_formed X) entries"
  shows "\<exists>items s'. consume X fetch s = (items, Inr (), s')
           \<and> length items = length entries
           \<and> map raw_data items = entries
           \<and> map (\<lambda>i. Some (item_id i)) items = map (\<lambda>e. e ''link'') entries
           \<and> (\<forall>i \<in> set items. item_id i \<noteq> [])"
proof -
  from wrap_all_ok [OF assms(4), of s] obtain its where
    w: "wrap_all X s entries = (its, None)" and
    p: "length its = length entries" "map raw_data its = entries"
       "map (\<lambda>i. Some (item_id i)) its = map (\<lambda>e. e ''link'') entries"
       "\<forall>i \<in> set its. item_id i \<noteq> []"
    by blast
  from drain_fetch_ok [OF assms(1-3)] w
  have "consume X fetch s =
      (its, Inr (), log_info (LogTotal (length its)) (fetched X s (text_of req)))"
    by (simp add: consume_def fetch_def)
  with p show ?thesis by blast
qed

theorem fetch_yields_every_entry_witness:
  "requests_get ex_externals (client_url (client (RSS ''http://x/feed'' None None)))
       = Inr \<lparr>status_code = 200, text_of = ''two''\<rparr>
   \<and> feedparser_parse ex_externals ''two'' = Inr [ex_entry1, ex_entry2]
   \<and> list_all (well_formed ex_externals) [ex_entry1, ex_entry2]
   \<and> (\<exists>items s'. consume ex_externals fetch (RSS ''http://x/feed'' None None)
                     = (items, Inr (), s')
           \<and> length items = length [ex_entry1, ex_entry2]
           \<and> map raw_data items = [ex_entry1, ex_entry2]
           \<and> map (\<lambda>i. Some (item_id i)) items = map (\<lambda>e. e ''link'') [ex_entry1, ex_entry2]
           \<and> (\<forall>i \<in> set items. item_id i \<noteq> []))"
proof -
  have h4: "list_all (well_formed ex_externals) [ex_entry1, ex_entry2]"
    by (simp add: well_formed_def ex_entry1_def ex_entry2_def ex_externals_def
        ex_str_to_datetime_def)
  from fetch_yields_every_entry [OF ex_get_feed ex_status_ok ex_parse_two h4]
    ex_get_feed [of None] ex_parse_two h4
  show ?thesis by simp
qed

text \<open>
  C1, as amended: when some entry of the feed lacks \<open>published\<close>, \<open>fetch\<close> fails
  rather than skipping that entry. The caller receives, in feed order, the items of the
  entries before the first entry on which a metadata function raises, and then the
  exception of that entry; no later entry is yielded. The entry without \<open>published\<close> is
  not among those yielded. Zero items are yielded only when the failing entry is the
  first of the feed.
\<close>

theorem fetch_stops_at_first_failing_entry:
  assumes "requests_get X (client_url (client s)) = Inr req"
    and "\<not> (400 \<le> status_code req \<and> status_code req < 600)"
    and "feedparser_parse X (text_of req) = Inr entries"
    and "e \<in> set entries" and "e ''published'' = None"
  shows "\<exists>pre bad post err.
           entries = pre @ bad # post
           \<and> list_all (\<lambda>x. \<not> isl (metadata_item X s x)) pre
           \<and> e \<notin> set pre
           \<and> metadata_item X s bad = Inl err
           \<and> consume X fetch s =
               (map (\<lambda>x. projr (metadata_item X s x)) pre, Inl (pep479 err),
                fetched X s (text_of req))"
proof -
  from assms(5) have bad: "isl (metadata_item X s e)"
    by (rule no_published_fails)
  from wrap_all_fails [OF assms(4) bad] obtain its err where
    w: "wrap_all X s entries = (its, Some err)"
    by blast
  from wrap_all_split [OF w] obtain pre bad post where
    s: "entries = pre @ bad # post" "list_all (\<lambda>x. \<not> isl (metadata_item X s x)) pre"
       "metadata_item X s bad = Inl err" "its = map (\<lambda>x. projr (metadata_item X s x)) pre"
    by blast
  from s(2) bad have "e \<notin> set pre"
    by (auto simp: list_all_iff)
  moreover from drain_fetch_ok [OF assms(1-3)] w s(4)
  have "consume X fetch s =
      (map (\<lambda>x. projr (metadata_item X s x)) pre, Inl (pep479 err), fetched X s (text_of req))"
    by (simp add: consume_def fetch_def)
  ultimately show ?thesis using s(1-3) by blast
qed

theorem fetch_stops_at_first_failing_entry_witness:
  "requests_get ex_externals (client_url (client (RSS ''http://x/broken'' None None)))
       = Inr \<lparr>status_code = 200, text_of = ''broken''\<rparr>
   \<and> feedparser_parse ex_externals ''broken'' = Inr [ex_entry1, ex_entry_nodate, ex_entry2]
   \<and> ex_entry_nodate ''published'' = None
   \<and> (\<exists>pre bad post err.
           [ex_entry1, ex_entry_nodate, ex_entry2] = pre @ bad # post
           \<and> list_all (\<lambda>x. \<not> isl (metadata_item ex_externals (RSS ''http://x/broken'' None None) x)) pre
           \<and> ex_entry_nodate \<notin> set pre
           \<and> metadata_item ex_externals (RSS ''http://x/broken'' None None) bad = Inl err
           \<and> consume ex_externals fetch (RSS ''http://x/broken'' None None) =
               (map (\<lambda>x. projr (metadata_item ex_externals (RSS ''http://x/broken'' None None) x)) pre,
                Inl (pep479 err), fetched ex_externals (RSS ''http://x/broken'' None None) ''broken''))"
proof -
  have h4: "ex_entry_nodate \<in> set [ex_entry1, ex_entry_nodate, ex_entry2]"
    by simp
  have h5: "ex_entry_nodate ''published'' = None"
    by (simp add: ex_entry_nodate_def)
  from fetch_stops_at_first_failing_entry [OF ex_get_broken ex_status_ok ex_parse_broken h4 h5]
    ex_get_broken [of None] ex_parse_broken h5
  show ?thesis by simp
qed

text \<open>
  The statement as written (zero items) fails on the feed at \<open>http://x/broken\<close>: its
  second entry lacks \<open>published\<close>, and the caller receives the item of the first entry
  before the \<open>KeyError\<close>.
\<close>

theorem fetch_partial_counterexample:
  "feedparser_parse ex_externals ''broken'' = Inr [ex_entry1, ex_entry_nodate, ex_entry2]
   \<and> ex_entry_nodate ''published'' = None
   \<and> map item_id (fst (consume ex_externals fetch (RSS ''http://x/broken'' None None)))
       = [''http://x/1'']
   \<and> fst (snd (consume ex_externals fetch (RSS ''http://x/broken'' None None)))
       = Inl (KeyError ''published'')"
  using ex_parse_broken
  by (simp add: ex_consume_broken ex_item1_def ex_entry_nodate_def)




end
